theory Spec2Isabelle
  imports Main "HOL-Library.Word"
begin

unbundle bit_operations_syntax

section \<open>Types that Messenger.h takes from other headers\<close>

text \<open>
  \<open>Messenger.h\<close> uses \<open>entity_name_t\<close>, \<open>entity_addr_t\<close>, \<open>entity_inst_t\<close>,
  \<open>utime_t\<close>, \<open>Message\<close>, \<open>Connection\<close>, \<open>AuthAuthorizer\<close> and \<open>Dispatcher\<close> from headers
  it includes. Only what the class reads or writes of them is modelled. Pointers
  (\<open>Dispatcher*\<close>, \<open>Connection*\<close>, \<open>Message*\<close>, \<open>CephContext*\<close>) are addresses, natural
  numbers; a pointer that may be \<open>NULL\<close> (\<open>AuthAuthorizer*\<close>, \<open>Throttle*\<close>) is an
  \<open>option\<close>, with \<open>None\<close> for \<open>NULL\<close>. The feature masks are 64-bit words. An
  \<open>int\<close> of the class (the send priority, a peer type, a returned status) is only
  stored or passed on, never computed with, and is an \<open>int\<close> here.
\<close>

type_synonym utime_t = nat

type_synonym entity_addr_t = nat

record entity_name_t =
  ent_type :: int
  ent_num :: int

record entity_inst_t =
  name :: entity_name_t
  addr :: entity_addr_t

text \<open>
  A \<open>Message\<close> object: \<open>get_source_inst()\<close> reads \<open>source_inst\<close>, and
  \<open>set_dispatch_stamp(t)\<close> writes \<open>dispatch_stamp\<close>; \<open>body\<close> stands for the payload.
\<close>

record Message =
  source_inst :: entity_inst_t
  dispatch_stamp :: utime_t
  body :: string

text \<open>
  The stream output operators that \<open>ms_deliver_dispatch\<close> applies to the message
  pointer, to the message and to the source instance are defined with those types; they
  are parameters here.
\<close>

record printers =
  show_ptr :: "nat \<Rightarrow> string"
  show_msg :: "Message \<Rightarrow> string"
  show_inst :: "entity_inst_t \<Rightarrow> string"

section \<open>Policy\<close>

record Policy =
  lossy :: bool
  server :: bool
  throttler :: "nat option"
  features_supported :: "64 word"
  features_required :: "64 word"

text \<open>
  The two constructors of \<open>Policy\<close>. The macro \<open>CEPH_FEATURES_SUPPORTED_DEFAULT\<close> of
  \<open>include/ceph_features.h\<close> is the first parameter of each definition of this section.
\<close>

definition Policy_default :: "64 word \<Rightarrow> Policy" where
  "Policy_default features_default =
     \<lparr>lossy = False, server = False, throttler = None,
      features_supported = features_default, features_required = 0\<rparr>"

definition Policy_init :: "64 word \<Rightarrow> bool \<Rightarrow> bool \<Rightarrow> 64 word \<Rightarrow> 64 word \<Rightarrow> Policy" where
  "Policy_init features_default l s sup' req =
     \<lparr>lossy = l, server = s, throttler = None,
      features_supported = sup' OR features_default, features_required = req\<rparr>"

definition stateful_server :: "64 word \<Rightarrow> 64 word \<Rightarrow> 64 word \<Rightarrow> Policy" where
  "stateful_server features_default sup' req = Policy_init features_default False True sup' req"

definition stateless_server :: "64 word \<Rightarrow> 64 word \<Rightarrow> 64 word \<Rightarrow> Policy" where
  "stateless_server features_default sup' req = Policy_init features_default True True sup' req"

definition lossless_peer :: "64 word \<Rightarrow> 64 word \<Rightarrow> 64 word \<Rightarrow> Policy" where
  "lossless_peer features_default sup' req = Policy_init features_default False False sup' req"

definition client :: "64 word \<Rightarrow> 64 word \<Rightarrow> 64 word \<Rightarrow> Policy" where
  "client features_default sup' req = Policy_init features_default False False sup' req"

section \<open>The Messenger object and what it calls\<close>

text \<open>
  The calls the base class makes on other objects, in the order it makes them: its own
  virtual \<open>ready()\<close>, \<open>set_dispatch_stamp\<close> on a message, the callbacks of a dispatcher
  (with the value the callback returned, where the class looks at it) and
  \<open>dout_emergency\<close>.
\<close>

datatype call =
    Ready
  | SetDispatchStamp nat utime_t
  | MsDispatch nat nat bool
  | MsHandleConnect nat nat
  | MsHandleReset nat nat bool
  | MsHandleRemoteReset nat nat
  | MsGetAuthorizer nat int bool bool
  | DoutEmergency string

text \<open>
  The fields of class \<open>Messenger\<close> (\<open>my_name\<close> is \<open>_my_name\<close>), and two components for
  what lies outside the object: \<open>world\<close>, the state of the dispatchers, the connections
  and the transport, which only the callbacks and the virtual methods touch, and
  \<open>calls\<close>, the log of the calls made so far.
\<close>

record 's Messenger =
  dispatchers :: "nat list"
  my_name :: entity_name_t
  default_send_priority :: int
  started :: bool
  cct :: nat
  world :: 's
  calls :: "call list"

text \<open>
  A method that can fail an assertion returns an \<open>outcome\<close>. Ceph's \<open>assert\<close> is checked
  in every build and ends the process; \<open>AssertFailure\<close> carries the asserted expression.
\<close>

datatype 'a outcome = Returned 'a | AssertFailure string

text \<open>
  The callbacks of a \<open>Dispatcher\<close> (\<open>Dispatcher.h\<close>) are parameters: each is a function of
  its arguments and of the world, returning its result and the new world. \<open>ms_dispatch\<close>
  receives the message pointer and may write the message; \<open>ms_get_authorizer\<close> receives
  the address of the caller's variable \<open>a\<close>, so it reads and returns its content. The
  results of \<open>ms_handle_connect\<close> and \<open>ms_handle_remote_reset\<close>, of any type \<open>'r\<close>, are
  discarded by the class. A callback is assumed to return, and to leave the fields of
  the messenger, the chain among them, as they are.
\<close>

record ('s, 'r) Dispatcher =
  ms_dispatch :: "nat \<Rightarrow> Message \<Rightarrow> 's \<Rightarrow> bool \<times> Message \<times> 's"
  ms_handle_connect :: "nat \<Rightarrow> 's \<Rightarrow> 'r \<times> 's"
  ms_handle_reset :: "nat \<Rightarrow> 's \<Rightarrow> bool \<times> 's"
  ms_handle_remote_reset :: "nat \<Rightarrow> 's \<Rightarrow> 'r \<times> 's"
  ms_get_authorizer :: "int \<Rightarrow> nat option \<Rightarrow> bool \<Rightarrow> 's \<Rightarrow> bool \<times> nat option \<times> 's"

text \<open>
  The virtual methods of \<open>Messenger\<close> that a transport overrides: \<open>ready()\<close> (empty in the
  base class) acts on the world, and the pure virtual \<open>send_message(Message*, const
  entity_inst_t&)\<close> returns an \<open>int\<close>.
\<close>

record 's transport =
  ready :: "'s \<Rightarrow> 's"
  send_message :: "nat \<Rightarrow> Message \<Rightarrow> entity_inst_t \<Rightarrow> 's Messenger \<Rightarrow> int \<times> Message \<times> 's Messenger"

subsection \<open>Construction, accessors, lifecycle\<close>

text \<open>
  The constructor; \<open>prio_default\<close> is the macro \<open>CEPH_MSG_PRIO_DEFAULT\<close>, and \<open>w0\<close> the
  world the object is created in.
\<close>

definition Messenger_new :: "int \<Rightarrow> 's \<Rightarrow> nat \<Rightarrow> entity_name_t \<Rightarrow> 's Messenger" where
  "Messenger_new prio_default w0 cct' w =
     \<lparr>dispatchers = [], my_name = w, default_send_priority = prio_default,
      started = False, cct = cct', world = w0, calls = []\<rparr>"

definition set_default_send_priority :: "int \<Rightarrow> 's Messenger \<Rightarrow> unit outcome \<times> 's Messenger" where
  "set_default_send_priority p s =
     (if \<not> started s then (Returned (), s\<lparr>default_send_priority := p\<rparr>)
      else (AssertFailure ''!started'', s))"

definition get_default_send_priority :: "'s Messenger \<Rightarrow> int" where
  "get_default_send_priority s = default_send_priority s"

definition start :: "'s Messenger \<Rightarrow> int \<times> 's Messenger" where
  "start s = (0, s\<lparr>started := True\<rparr>)"

definition shutdown :: "'s Messenger \<Rightarrow> int \<times> 's Messenger" where
  "shutdown s = (0, s\<lparr>started := False\<rparr>)"

subsection \<open>The dispatcher chain\<close>

definition call_ready :: "'s transport \<Rightarrow> 's Messenger \<Rightarrow> 's Messenger" where
  "call_ready T s = s\<lparr>world := ready T (world s), calls := calls s @ [Ready]\<rparr>"

definition add_dispatcher_head :: "'s transport \<Rightarrow> nat \<Rightarrow> 's Messenger \<Rightarrow> 's Messenger" where
  "add_dispatcher_head T d s =
     (let first = (dispatchers s = []);
          s1 = s\<lparr>dispatchers := d # dispatchers s\<rparr>
      in if first then call_ready T s1 else s1)"

definition add_dispatcher_tail :: "'s transport \<Rightarrow> nat \<Rightarrow> 's Messenger \<Rightarrow> 's Messenger" where
  "add_dispatcher_tail T d s =
     (let first = (dispatchers s = []);
          s1 = s\<lparr>dispatchers := dispatchers s @ [d]\<rparr>
      in if first then call_ready T s1 else s1)"

definition is_ready :: "'s Messenger \<Rightarrow> bool" where
  "is_ready s = (\<not> (dispatchers s = []))"

subsection \<open>Delivery\<close>

text \<open>
  Each \<open>for\<close> loop over \<open>dispatchers\<close> is a recursion over the part of the list the
  iterator has not visited yet. \<open>D\<close> gives the dispatcher object behind each pointer.
\<close>

fun ms_dispatch_loop ::
  "(nat \<Rightarrow> ('s, 'r) Dispatcher) \<Rightarrow> nat list \<Rightarrow> nat \<Rightarrow> Message \<Rightarrow> 's Messenger
     \<Rightarrow> bool \<times> Message \<times> 's Messenger" where
  "ms_dispatch_loop D [] mp m s = (False, m, s)"
| "ms_dispatch_loop D (p # ps) mp m s =
     (case ms_dispatch (D p) mp m (world s) of
        (claimed, m', w') \<Rightarrow>
          (let s' = s\<lparr>world := w', calls := calls s @ [MsDispatch p mp claimed]\<rparr>
           in if claimed then (True, m', s') else ms_dispatch_loop D ps mp m' s'))"

definition unhandled_text :: "printers \<Rightarrow> nat \<Rightarrow> Message \<Rightarrow> string" where
  "unhandled_text P mp m =
     ''ms_deliver_dispatch: fatal error: unhandled message '' @ show_ptr P mp @ '' ''
       @ show_msg P m @ '' from '' @ show_inst P (source_inst m)"

text \<open>\<open>now\<close> is the value of \<open>ceph_clock_now(cct)\<close>.\<close>

definition ms_deliver_dispatch ::
  "(nat \<Rightarrow> ('s, 'r) Dispatcher) \<Rightarrow> printers \<Rightarrow> utime_t \<Rightarrow> nat \<Rightarrow> Message \<Rightarrow> 's Messenger
     \<Rightarrow> unit outcome \<times> Message \<times> 's Messenger" where
  "ms_deliver_dispatch D P now mp m s =
     (let m1 = m\<lparr>dispatch_stamp := now\<rparr>;
          s1 = s\<lparr>calls := calls s @ [SetDispatchStamp mp now]\<rparr>
      in case ms_dispatch_loop D (dispatchers s1) mp m1 s1 of
           (claimed, m', s') \<Rightarrow>
             if claimed then (Returned (), m', s')
             else (AssertFailure ''0'', m',
                   s'\<lparr>calls := calls s' @ [DoutEmergency (unhandled_text P mp m')]\<rparr>))"

fun ms_handle_connect_loop ::
  "(nat \<Rightarrow> ('s, 'r) Dispatcher) \<Rightarrow> nat list \<Rightarrow> nat \<Rightarrow> 's Messenger \<Rightarrow> 's Messenger" where
  "ms_handle_connect_loop D [] con s = s"
| "ms_handle_connect_loop D (p # ps) con s =
     (case ms_handle_connect (D p) con (world s) of
        (r, w') \<Rightarrow>
          ms_handle_connect_loop D ps con
            (s\<lparr>world := w', calls := calls s @ [MsHandleConnect p con]\<rparr>))"

definition ms_deliver_handle_connect ::
  "(nat \<Rightarrow> ('s, 'r) Dispatcher) \<Rightarrow> nat \<Rightarrow> 's Messenger \<Rightarrow> 's Messenger" where
  "ms_deliver_handle_connect D con s = ms_handle_connect_loop D (dispatchers s) con s"

fun ms_handle_reset_loop ::
  "(nat \<Rightarrow> ('s, 'r) Dispatcher) \<Rightarrow> nat list \<Rightarrow> nat \<Rightarrow> 's Messenger \<Rightarrow> 's Messenger" where
  "ms_handle_reset_loop D [] con s = s"
| "ms_handle_reset_loop D (p # ps) con s =
     (case ms_handle_reset (D p) con (world s) of
        (claimed, w') \<Rightarrow>
          (let s' = s\<lparr>world := w', calls := calls s @ [MsHandleReset p con claimed]\<rparr>
           in if claimed then s' else ms_handle_reset_loop D ps con s'))"

definition ms_deliver_handle_reset ::
  "(nat \<Rightarrow> ('s, 'r) Dispatcher) \<Rightarrow> nat \<Rightarrow> 's Messenger \<Rightarrow> unit outcome \<times> 's Messenger" where
  "ms_deliver_handle_reset D con s =
     (Returned (), ms_handle_reset_loop D (dispatchers s) con s)"

fun ms_handle_remote_reset_loop ::
  "(nat \<Rightarrow> ('s, 'r) Dispatcher) \<Rightarrow> nat list \<Rightarrow> nat \<Rightarrow> 's Messenger \<Rightarrow> 's Messenger" where
  "ms_handle_remote_reset_loop D [] con s = s"
| "ms_handle_remote_reset_loop D (p # ps) con s =
     (case ms_handle_remote_reset (D p) con (world s) of
        (r, w') \<Rightarrow>
          ms_handle_remote_reset_loop D ps con
            (s\<lparr>world := w', calls := calls s @ [MsHandleRemoteReset p con]\<rparr>))"

definition ms_deliver_handle_remote_reset ::
  "(nat \<Rightarrow> ('s, 'r) Dispatcher) \<Rightarrow> nat \<Rightarrow> 's Messenger \<Rightarrow> 's Messenger" where
  "ms_deliver_handle_remote_reset D con s =
     ms_handle_remote_reset_loop D (dispatchers s) con s"

text \<open>
  In \<open>ms_deliver_get_authorizer\<close> the local variable \<open>a\<close> lives across the iterations:
  each dispatcher receives its address, and what one dispatcher stored there is what the
  next one finds.
\<close>

fun ms_get_authorizer_loop ::
  "(nat \<Rightarrow> ('s, 'r) Dispatcher) \<Rightarrow> nat list \<Rightarrow> int \<Rightarrow> bool \<Rightarrow> nat option \<Rightarrow> 's Messenger
     \<Rightarrow> nat option \<times> 's Messenger" where
  "ms_get_authorizer_loop D [] peer_type force_new a s = (None, s)"
| "ms_get_authorizer_loop D (p # ps) peer_type force_new a s =
     (case ms_get_authorizer (D p) peer_type a force_new (world s) of
        (ok, a', w') \<Rightarrow>
          (let s' = s\<lparr>world := w',
                       calls := calls s @ [MsGetAuthorizer p peer_type force_new ok]\<rparr>
           in if ok then (a', s') else ms_get_authorizer_loop D ps peer_type force_new a' s'))"

definition ms_deliver_get_authorizer ::
  "(nat \<Rightarrow> ('s, 'r) Dispatcher) \<Rightarrow> int \<Rightarrow> bool \<Rightarrow> 's Messenger \<Rightarrow> nat option \<times> 's Messenger" where
  "ms_deliver_get_authorizer D peer_type force_new s =
     ms_get_authorizer_loop D (dispatchers s) peer_type force_new None s"

subsection \<open>Sending\<close>

definition lazy_send_message ::
  "'s transport \<Rightarrow> nat \<Rightarrow> Message \<Rightarrow> entity_inst_t \<Rightarrow> 's Messenger \<Rightarrow> int \<times> Message \<times> 's Messenger" where
  "lazy_send_message T mp m dest s = send_message T mp m dest s"

section \<open>Vocabulary of the statements\<close>

subsection \<open>Sequences of insertions\<close>

text \<open>
  A sequence of \<open>add_dispatcher_head\<close> and \<open>add_dispatcher_tail\<close> calls, made one after
  the other on the same messenger.
\<close>

datatype insertion = AtHead nat | AtTail nat

fun add_dispatcher :: "'s transport \<Rightarrow> insertion \<Rightarrow> 's Messenger \<Rightarrow> 's Messenger" where
  "add_dispatcher T (AtHead d) s = add_dispatcher_head T d s"
| "add_dispatcher T (AtTail d) s = add_dispatcher_tail T d s"

definition add_dispatchers :: "'s transport \<Rightarrow> insertion list \<Rightarrow> 's Messenger \<Rightarrow> 's Messenger" where
  "add_dispatchers T ins s = fold (add_dispatcher T) ins s"

subsection \<open>Authorizer issuance as the specification words it\<close>

text \<open>
  This definition follows the specification, not the source: the result of authorizer
  issuance is the authorizer of the first dispatcher of the chain that produces a
  non-null one, and null when no dispatcher produces one. It is compared with
  \<open>ms_deliver_get_authorizer\<close> below.
\<close>

fun spec_first_nonnull_authorizer ::
  "(nat \<Rightarrow> ('s, 'r) Dispatcher) \<Rightarrow> nat list \<Rightarrow> int \<Rightarrow> bool \<Rightarrow> 's \<Rightarrow> nat option" where
  "spec_first_nonnull_authorizer D [] peer_type force_new w = None"
| "spec_first_nonnull_authorizer D (p # ps) peer_type force_new w =
     (case ms_get_authorizer (D p) peer_type None force_new w of
        (ok, a', w') \<Rightarrow>
          (case a' of
             Some x \<Rightarrow> Some x
           | None \<Rightarrow> spec_first_nonnull_authorizer D ps peer_type force_new w'))"

subsection \<open>The variable a of authorizer issuance\<close>

text \<open>
  What the variable \<open>a\<close> and the world hold once the dispatchers \<open>ps\<close> have each been
  asked for an authorizer, one after the other, starting from the pair \<open>st\<close>: each
  callback receives what the one before it left.
\<close>

fun asked_in_turn ::
  "(nat \<Rightarrow> ('s, 'r) Dispatcher) \<Rightarrow> int \<Rightarrow> bool \<Rightarrow> nat list \<Rightarrow> nat option \<times> 's
     \<Rightarrow> nat option \<times> 's" where
  "asked_in_turn D peer_type force_new [] st = st"
| "asked_in_turn D peer_type force_new (p # ps) st =
     (case ms_get_authorizer (D p) peer_type (fst st) force_new (snd st) of
        (ok, a', w') \<Rightarrow> asked_in_turn D peer_type force_new ps (a', w'))"

subsection \<open>Concrete dispatchers, messenger and message\<close>

text \<open>
  \<open>claimer b\<close> gives the dispatchers of a small system whose world counts the callbacks
  run: the dispatcher at address \<open>b\<close> claims every event and issues the authorizer \<open>b\<close>,
  every other dispatcher declines. Under \<open>no_auth_needed b\<close> every dispatcher answers
  \<open>true\<close> to \<open>ms_get_authorizer\<close>; the one at address \<open>b\<close> leaves \<open>a\<close> as it found it,
  every other one stores its own address.
\<close>

definition claimer :: "nat \<Rightarrow> nat \<Rightarrow> (nat, bool) Dispatcher" where
  "claimer b p =
     \<lparr>ms_dispatch = (\<lambda>mp m w. (p = b, m, Suc w)),
      ms_handle_connect = (\<lambda>con w. (p = b, Suc w)),
      ms_handle_reset = (\<lambda>con w. (p = b, Suc w)),
      ms_handle_remote_reset = (\<lambda>con w. (p = b, Suc w)),
      ms_get_authorizer =
        (\<lambda>peer_type a force_new w. (p = b, (if p = b then Some p else a), Suc w))\<rparr>"

definition no_auth_needed :: "nat \<Rightarrow> nat \<Rightarrow> (nat, bool) Dispatcher" where
  "no_auth_needed b p =
     (claimer b p)\<lparr>ms_get_authorizer :=
        (\<lambda>peer_type a force_new w. (True, (if p = b then a else Some p), Suc w))\<rparr>"

text \<open>
  Under \<open>hand_over b\<close> the dispatcher at address \<open>b\<close> answers \<open>true\<close> and leaves \<open>a\<close> as it
  found it; every other dispatcher stores its own address in \<open>a\<close> and declines.
\<close>

definition hand_over :: "nat \<Rightarrow> nat \<Rightarrow> (nat, bool) Dispatcher" where
  "hand_over b p =
     (claimer b p)\<lparr>ms_get_authorizer :=
        (\<lambda>peer_type a force_new w. (p = b, (if p = b then a else Some p), Suc w))\<rparr>"

text \<open>
  \<open>base_transport\<close> keeps the empty \<open>ready()\<close> of the base class; its \<open>send_message\<close>
  counts the attempt in the world and refuses the address 0 with \<open>-EINVAL\<close>.
\<close>

definition base_transport :: "nat transport" where
  "base_transport =
     \<lparr>ready = (\<lambda>w. w),
      send_message =
        (\<lambda>mp m dest s. (if addr dest = 0 then - 22 else 0, m, s\<lparr>world := Suc (world s)\<rparr>))\<rparr>"

text \<open>\<open>marking_transport\<close> overrides \<open>ready()\<close>: it adds 100 to the world.\<close>

definition marking_transport :: "nat transport" where
  "marking_transport = base_transport\<lparr>ready := (\<lambda>w. w + 100)\<rparr>"

definition client99 :: "nat Messenger" where
  "client99 = Messenger_new 127 0 0 \<lparr>ent_type = 8, ent_num = 99\<rparr>"

definition ping :: Message where
  "ping = \<lparr>source_inst = \<lparr>name = \<lparr>ent_type = 4, ent_num = 0\<rparr>, addr = 6800\<rparr>,
           dispatch_stamp = 0, body = ''ping''\<rparr>"

definition plain :: printers where
  "plain = \<lparr>show_ptr = (\<lambda>n. ''0x10''), show_msg = body, show_inst = (\<lambda>i. ''osd.0'')\<rparr>"

section \<open>What the loops over the chain do\<close>

lemma ms_dispatch_loop_frame:
  "ms_dispatch_loop D ps mp m s = (claimed, m', s') \<Longrightarrow> dispatchers s' = dispatchers s"
proof (induction ps arbitrary: m s)
  case Nil
  then show ?case by simp
next
  case (Cons p ps)
  obtain c m1 w1 where r: "ms_dispatch (D p) mp m (world s) = (c, m1, w1)"
    by (cases "ms_dispatch (D p) mp m (world s)")
  show ?case
  proof (cases c)
    case True
    with Cons.prems r show ?thesis by auto
  next
    case False
    let ?s1 = "s\<lparr>world := w1, calls := calls s @ [MsDispatch p mp False]\<rparr>"
    from Cons.prems r False have "ms_dispatch_loop D ps mp m1 ?s1 = (claimed, m', s')"
      by simp
    from Cons.IH [OF this] show ?thesis by simp
  qed
qed

lemma ms_dispatch_loop_calls:
  "ms_dispatch_loop D ps mp m s = (claimed, m', s') \<Longrightarrow>
     \<exists>k. k \<le> length ps \<and> (claimed \<longrightarrow> k < length ps) \<and> (\<not> claimed \<longrightarrow> k = length ps) \<and>
       calls s' = calls s @ map (\<lambda>p. MsDispatch p mp False) (take k ps)
                    @ (if claimed then [MsDispatch (ps ! k) mp True] else [])"
proof (induction ps arbitrary: m s)
  case Nil
  then show ?case by auto
next
  case (Cons p ps)
  obtain c m1 w1 where r: "ms_dispatch (D p) mp m (world s) = (c, m1, w1)"
    by (cases "ms_dispatch (D p) mp m (world s)")
  show ?case
  proof (cases c)
    case True
    with Cons.prems r have "claimed" and "calls s' = calls s @ [MsDispatch p mp True]"
      by auto
    then show ?thesis by (intro exI [of _ 0]) simp
  next
    case False
    let ?s1 = "s\<lparr>world := w1, calls := calls s @ [MsDispatch p mp False]\<rparr>"
    from Cons.prems r False have "ms_dispatch_loop D ps mp m1 ?s1 = (claimed, m', s')"
      by simp
    from Cons.IH [OF this] obtain k where k: "k \<le> length ps" "claimed \<longrightarrow> k < length ps"
      "\<not> claimed \<longrightarrow> k = length ps"
      "calls s' = calls ?s1 @ map (\<lambda>p. MsDispatch p mp False) (take k ps)
                    @ (if claimed then [MsDispatch (ps ! k) mp True] else [])"
      by blast
    then show ?thesis by (intro exI [of _ "Suc k"]) simp
  qed
qed

lemma ms_handle_connect_loop_calls:
  "calls (ms_handle_connect_loop D ps con s) = calls s @ map (\<lambda>p. MsHandleConnect p con) ps"
  by (induction ps arbitrary: s) (simp_all split: prod.splits)

lemma ms_handle_connect_loop_frame:
  "dispatchers (ms_handle_connect_loop D ps con s) = dispatchers s"
  by (induction ps arbitrary: s) (simp_all split: prod.splits)

lemma ms_handle_remote_reset_loop_calls:
  "calls (ms_handle_remote_reset_loop D ps con s)
     = calls s @ map (\<lambda>p. MsHandleRemoteReset p con) ps"
  by (induction ps arbitrary: s) (simp_all split: prod.splits)

lemma ms_handle_remote_reset_loop_frame:
  "dispatchers (ms_handle_remote_reset_loop D ps con s) = dispatchers s"
  by (induction ps arbitrary: s) (simp_all split: prod.splits)

lemma ms_handle_reset_loop_calls:
  "\<exists>k. k \<le> length ps \<and>
     calls (ms_handle_reset_loop D ps con s)
       = calls s @ map (\<lambda>p. MsHandleReset p con False) (take k ps)
           @ (if k < length ps then [MsHandleReset (ps ! k) con True] else [])"
proof (induction ps arbitrary: s)
  case Nil
  show ?case by simp
next
  case (Cons p ps)
  obtain c w1 where r: "ms_handle_reset (D p) con (world s) = (c, w1)"
    by (cases "ms_handle_reset (D p) con (world s)")
  show ?case
  proof (cases c)
    case True
    with r have "calls (ms_handle_reset_loop D (p # ps) con s)
        = calls s @ [MsHandleReset p con True]"
      by simp
    then show ?thesis by (intro exI [of _ 0]) simp
  next
    case False
    let ?s1 = "s\<lparr>world := w1, calls := calls s @ [MsHandleReset p con False]\<rparr>"
    from r False have e: "ms_handle_reset_loop D (p # ps) con s = ms_handle_reset_loop D ps con ?s1"
      by simp
    from Cons.IH [of ?s1] obtain k where k: "k \<le> length ps"
      "calls (ms_handle_reset_loop D ps con ?s1)
         = calls ?s1 @ map (\<lambda>p. MsHandleReset p con False) (take k ps)
             @ (if k < length ps then [MsHandleReset (ps ! k) con True] else [])"
      by blast
    with e show ?thesis by (intro exI [of _ "Suc k"]) simp
  qed
qed

lemma ms_deliver_dispatch_calls:
  assumes run: "ms_deliver_dispatch D P now mp m s = (out, m', s')"
  shows "\<exists>k. k \<le> length (dispatchers s) \<and>
           (out = Returned () \<longrightarrow> k < length (dispatchers s)) \<and>
           (out \<noteq> Returned () \<longrightarrow> k = length (dispatchers s) \<and> out = AssertFailure ''0'') \<and>
           calls s' = calls s @ SetDispatchStamp mp now
             # map (\<lambda>p. MsDispatch p mp False) (take k (dispatchers s))
             @ (if out = Returned () then [MsDispatch (dispatchers s ! k) mp True]
                else [DoutEmergency (unhandled_text P mp m')])"
proof -
  let ?m1 = "m\<lparr>dispatch_stamp := now\<rparr>"
  let ?s1 = "s\<lparr>calls := calls s @ [SetDispatchStamp mp now]\<rparr>"
  obtain c m2 s2 where l: "ms_dispatch_loop D (dispatchers s) mp ?m1 ?s1 = (c, m2, s2)"
    by (cases "ms_dispatch_loop D (dispatchers s) mp ?m1 ?s1")
  from ms_dispatch_loop_calls [OF l] obtain k where k: "k \<le> length (dispatchers s)"
    "c \<longrightarrow> k < length (dispatchers s)" "\<not> c \<longrightarrow> k = length (dispatchers s)"
    "calls s2 = calls ?s1 @ map (\<lambda>p. MsDispatch p mp False) (take k (dispatchers s))
                  @ (if c then [MsDispatch (dispatchers s ! k) mp True] else [])"
    by blast
  show ?thesis
  proof (cases c)
    case True
    with run l have "out = Returned ()" "s' = s2"
      by (auto simp add: ms_deliver_dispatch_def Let_def)
    with k True show ?thesis by (intro exI [of _ k]) simp
  next
    case False
    with run l have "out = AssertFailure ''0''" "m' = m2"
      "s' = s2\<lparr>calls := calls s2 @ [DoutEmergency (unhandled_text P mp m2)]\<rparr>"
      by (auto simp add: ms_deliver_dispatch_def Let_def)
    with k False show ?thesis by (intro exI [of _ k]) simp
  qed
qed

lemma ms_deliver_dispatch_frame:
  assumes run: "ms_deliver_dispatch D P now mp m s = (out, m', s')"
  shows "dispatchers s' = dispatchers s"
proof -
  let ?m1 = "m\<lparr>dispatch_stamp := now\<rparr>"
  let ?s1 = "s\<lparr>calls := calls s @ [SetDispatchStamp mp now]\<rparr>"
  obtain c m2 s2 where l: "ms_dispatch_loop D (dispatchers s) mp ?m1 ?s1 = (c, m2, s2)"
    by (cases "ms_dispatch_loop D (dispatchers s) mp ?m1 ?s1")
  from ms_dispatch_loop_frame [OF l] have "dispatchers s2 = dispatchers s" by simp
  with run l show ?thesis
    by (cases c) (auto simp add: ms_deliver_dispatch_def Let_def)
qed


lemma ms_get_authorizer_loop_spec:
  assumes conv: "\<forall>p\<in>set ps. \<forall>w.
      fst (ms_get_authorizer (D p) pt None fn w)
        = (fst (snd (ms_get_authorizer (D p) pt None fn w)) \<noteq> None)"
  shows "fst (ms_get_authorizer_loop D ps pt fn None s)
           = spec_first_nonnull_authorizer D ps pt fn (world s)"
  using conv
proof (induction ps arbitrary: s)
  case Nil
  show ?case by simp
next
  case (Cons p ps)
  obtain ok a1 w1 where g: "ms_get_authorizer (D p) pt None fn (world s) = (ok, a1, w1)"
    by (cases "ms_get_authorizer (D p) pt None fn (world s)")
  from Cons.prems have "fst (ms_get_authorizer (D p) pt None fn (world s))
        = (fst (snd (ms_get_authorizer (D p) pt None fn (world s))) \<noteq> None)"
    by simp
  with g have ok: "ok = (a1 \<noteq> None)"
    by simp
  show ?case
  proof (cases a1)
    case None
    let ?s1 = "s\<lparr>world := w1, calls := calls s @ [MsGetAuthorizer p pt fn False]\<rparr>"
    from Cons.prems have "fst (ms_get_authorizer_loop D ps pt fn None ?s1)
           = spec_first_nonnull_authorizer D ps pt fn (world ?s1)"
      by (intro Cons.IH) simp
    with g ok None show ?thesis by simp
  next
    case (Some x)
    with g ok show ?thesis by simp
  qed
qed


lemma add_dispatcher_calls:
  "calls (add_dispatcher T i s) = calls s @ (if dispatchers s = [] then [Ready] else [])"
  by (cases i)
    (simp_all add: add_dispatcher_head_def add_dispatcher_tail_def call_ready_def Let_def)

lemma add_dispatcher_nonempty: "dispatchers (add_dispatcher T i s) \<noteq> []"
  by (cases i)
    (simp_all add: add_dispatcher_head_def add_dispatcher_tail_def call_ready_def Let_def)

lemma add_dispatchers_later_calls:
  "dispatchers s \<noteq> [] \<Longrightarrow> calls (add_dispatchers T ins s) = calls s"
proof (induction ins arbitrary: s)
  case Nil
  show ?case by (simp add: add_dispatchers_def)
next
  case (Cons i ins)
  have "calls (add_dispatchers T ins (add_dispatcher T i s)) = calls (add_dispatcher T i s)"
    by (rule Cons.IH) (rule add_dispatcher_nonempty)
  with Cons.prems show ?case
    by (simp add: add_dispatchers_def add_dispatcher_calls)
qed

lemma add_dispatchers_empty_iff:
  "(dispatchers (add_dispatchers T ins s) = []) = (ins = [] \<and> dispatchers s = [])"
proof (induction ins arbitrary: s)
  case Nil
  show ?case by (simp add: add_dispatchers_def)
next
  case (Cons i ins)
  from Cons.IH [of "add_dispatcher T i s"] show ?case
    by (simp add: add_dispatchers_def add_dispatcher_nonempty)
qed


lemma ms_get_authorizer_loop_result:
  "ms_get_authorizer_loop D ps pt fn a s = (r, s') \<Longrightarrow>
     \<exists>k. k \<le> length ps \<and>
       (\<forall>i<k. \<not> fst (ms_get_authorizer (D (ps ! i)) pt
                       (fst (asked_in_turn D pt fn (take i ps) (a, world s))) fn
                       (snd (asked_in_turn D pt fn (take i ps) (a, world s))))) \<and>
       (k < length ps \<longrightarrow>
          ms_get_authorizer (D (ps ! k)) pt
              (fst (asked_in_turn D pt fn (take k ps) (a, world s))) fn
              (snd (asked_in_turn D pt fn (take k ps) (a, world s)))
            = (True, r, world s')) \<and>
       (k = length ps \<longrightarrow> r = None \<and> world s' = snd (asked_in_turn D pt fn ps (a, world s))) \<and>
       calls s' = calls s @ map (\<lambda>p. MsGetAuthorizer p pt fn False) (take k ps)
                    @ (if k < length ps then [MsGetAuthorizer (ps ! k) pt fn True] else [])"
proof (induction ps arbitrary: a s)
  case Nil
  then show ?case by auto
next
  case (Cons p ps)
  obtain ok a1 w1 where g: "ms_get_authorizer (D p) pt a fn (world s) = (ok, a1, w1)"
    by (cases "ms_get_authorizer (D p) pt a fn (world s)")
  show ?case
  proof (cases ok)
    case True
    with Cons.prems g have "r = a1" "world s' = w1"
      "calls s' = calls s @ [MsGetAuthorizer p pt fn True]"
      by auto
    with g True show ?thesis by (intro exI [of _ 0]) simp
  next
    case False
    let ?s1 = "s\<lparr>world := w1, calls := calls s @ [MsGetAuthorizer p pt fn False]\<rparr>"
    from Cons.prems g False have "ms_get_authorizer_loop D ps pt fn a1 ?s1 = (r, s')"
      by simp
    from Cons.IH [OF this] obtain k where k: "k \<le> length ps"
      "\<forall>i<k. \<not> fst (ms_get_authorizer (D (ps ! i)) pt
                       (fst (asked_in_turn D pt fn (take i ps) (a1, w1))) fn
                       (snd (asked_in_turn D pt fn (take i ps) (a1, w1))))"
      "k < length ps \<longrightarrow>
          ms_get_authorizer (D (ps ! k)) pt
              (fst (asked_in_turn D pt fn (take k ps) (a1, w1))) fn
              (snd (asked_in_turn D pt fn (take k ps) (a1, w1)))
            = (True, r, world s')"
      "k = length ps \<longrightarrow> r = None \<and> world s' = snd (asked_in_turn D pt fn ps (a1, w1))"
      "calls s' = calls ?s1 @ map (\<lambda>p. MsGetAuthorizer p pt fn False) (take k ps)
                    @ (if k < length ps then [MsGetAuthorizer (ps ! k) pt fn True] else [])"
      by auto
    have declined: "\<forall>i<Suc k. \<not> fst (ms_get_authorizer (D ((p # ps) ! i)) pt
                       (fst (asked_in_turn D pt fn (take i (p # ps)) (a, world s))) fn
                       (snd (asked_in_turn D pt fn (take i (p # ps)) (a, world s))))"
    proof (intro allI impI)
      fix i
      assume "i < Suc k"
      show "\<not> fst (ms_get_authorizer (D ((p # ps) ! i)) pt
                       (fst (asked_in_turn D pt fn (take i (p # ps)) (a, world s))) fn
                       (snd (asked_in_turn D pt fn (take i (p # ps)) (a, world s))))"
      proof (cases i)
        case 0
        with g False show ?thesis by simp
      next
        case (Suc j)
        with \<open>i < Suc k\<close> k(2) g show ?thesis by simp
      qed
    qed
    from k g declined show ?thesis by (intro exI [of _ "Suc k"]) simp
  qed
qed

lemma ms_get_authorizer_loop_frame:
  "dispatchers (snd (ms_get_authorizer_loop D ps pt fn a s)) = dispatchers s"
  by (induction ps arbitrary: a s) (simp_all split: prod.splits add: Let_def)

lemma ms_handle_reset_loop_frame:
  "dispatchers (ms_handle_reset_loop D ps con s) = dispatchers s"
  by (induction ps arbitrary: s) (simp_all split: prod.splits add: Let_def)

lemma ms_handle_connect_loop_world:
  "world (ms_handle_connect_loop D ps con s)
     = fold (\<lambda>p w. snd (ms_handle_connect (D p) con w)) ps (world s)"
  by (induction ps arbitrary: s) (simp_all split: prod.splits)

lemma ms_handle_remote_reset_loop_world:
  "world (ms_handle_remote_reset_loop D ps con s)
     = fold (\<lambda>p w. snd (ms_handle_remote_reset (D p) con w)) ps (world s)"
  by (induction ps arbitrary: s) (simp_all split: prod.splits)

lemma add_dispatcher_world:
  "world (add_dispatcher T i s) = (if dispatchers s = [] then ready T (world s) else world s)"
  by (cases i)
    (simp_all add: add_dispatcher_head_def add_dispatcher_tail_def call_ready_def Let_def)

lemma add_dispatchers_later_world:
  "dispatchers s \<noteq> [] \<Longrightarrow> world (add_dispatchers T ins s) = world s"
proof (induction ins arbitrary: s)
  case Nil
  show ?case by (simp add: add_dispatchers_def)
next
  case (Cons i ins)
  have "world (add_dispatchers T ins (add_dispatcher T i s)) = world (add_dispatcher T i s)"
    by (rule Cons.IH) (rule add_dispatcher_nonempty)
  with Cons.prems show ?case
    by (simp add: add_dispatchers_def add_dispatcher_world)
qed

section \<open>Policy constructors\<close>

text \<open>
  Claim C6. For all feature masks \<open>S\<close> and \<open>R\<close>, and whatever the baseline mask \<open>dflt\<close> is:
  \<open>stateful_server\<close> gives \<open>lossy = false\<close>, \<open>server = true\<close>; \<open>stateless_server\<close> gives
  \<open>lossy = true\<close>, \<open>server = true\<close>; \<open>lossless_peer\<close> and \<open>client\<close> give \<open>lossy = false\<close>,
  \<open>server = false\<close>. In each case \<open>features_supported\<close> is \<open>S\<close> OR-ed with the baseline, so
  it contains every bit of the baseline (also for \<open>S = 0\<close>, where it is the baseline), and
  \<open>features_required\<close> is \<open>R\<close>.
\<close>

theorem Policy_constructors:
  "\<not> lossy (stateful_server dflt S R) \<and> server (stateful_server dflt S R) \<and>
   lossy (stateless_server dflt S R) \<and> server (stateless_server dflt S R) \<and>
   \<not> lossy (lossless_peer dflt S R) \<and> \<not> server (lossless_peer dflt S R) \<and>
   \<not> lossy (client dflt S R) \<and> \<not> server (client dflt S R) \<and>
   features_supported (stateful_server dflt S R) = S OR dflt \<and>
   features_supported (stateless_server dflt S R) = S OR dflt \<and>
   features_supported (lossless_peer dflt S R) = S OR dflt \<and>
   features_supported (client dflt S R) = S OR dflt \<and>
   features_required (stateful_server dflt S R) = R \<and>
   features_required (stateless_server dflt S R) = R \<and>
   features_required (lossless_peer dflt S R) = R \<and>
   features_required (client dflt S R) = R \<and>
   features_supported (stateful_server dflt S R) AND dflt = dflt \<and>
   features_supported (stateless_server dflt S R) AND dflt = dflt \<and>
   features_supported (lossless_peer dflt S R) AND dflt = dflt \<and>
   features_supported (client dflt S R) AND dflt = dflt \<and>
   features_supported (stateless_server dflt 0 R) = dflt \<and>
   features_supported (client dflt 0 R) = dflt"
  by (simp add: stateful_server_def stateless_server_def lossless_peer_def client_def
      Policy_init_def bit.conj_disj_distrib2)

text \<open>With baseline \<open>0xff\<close>: a stateless server supporting bit 8, and a client with \<open>S = 0\<close>.\<close>

theorem Policy_constructors_witness:
  "lossy (stateless_server 255 256 3) \<and> server (stateless_server 255 256 3) \<and>
   features_supported (stateless_server 255 256 3) = 511 \<and>
   features_required (stateless_server 255 256 3) = 3 \<and>
   \<not> lossy (client 255 0 0) \<and> \<not> server (client 255 0 0) \<and>
   features_supported (client 255 0 0) = 255"
  using Policy_constructors [of 255 256 3] Policy_constructors [of 255 0 0]
  by simp

section \<open>The send priority is set at init time\<close>

text \<open>
  Claim C7. While \<open>started\<close> is true, and so right after \<open>start()\<close>,
  \<open>set_default_send_priority(p)\<close> fails the assertion \<open>!started\<close> and changes nothing.
  While \<open>started\<close> is false, and so on a newly constructed messenger, it returns and the
  default send priority is \<open>p\<close>.
\<close>

theorem set_default_send_priority_init_time:
  "(started s \<longrightarrow> set_default_send_priority p s = (AssertFailure ''!started'', s)) \<and>
   set_default_send_priority p (snd (start s)) = (AssertFailure ''!started'', snd (start s)) \<and>
   (\<not> started s \<longrightarrow>
      set_default_send_priority p s = (Returned (), s\<lparr>default_send_priority := p\<rparr>) \<and>
      get_default_send_priority (snd (set_default_send_priority p s)) = p) \<and>
   fst (set_default_send_priority p (Messenger_new prio0 w0 c n)) = Returned () \<and>
   get_default_send_priority (snd (set_default_send_priority p (Messenger_new prio0 w0 c n))) = p"
  by (simp add: set_default_send_priority_def start_def get_default_send_priority_def
      Messenger_new_def)

text \<open>
  A messenger of \<open>client.99\<close> with default priority 127: priority 5 is accepted before
  \<open>start()\<close> and rejected after it.
\<close>

theorem set_default_send_priority_init_time_witness:
  "\<not> started (Messenger_new 127 () 0 \<lparr>ent_type = 8, ent_num = 99\<rparr>) \<and>
   get_default_send_priority (snd (set_default_send_priority 5
     (Messenger_new 127 () 0 \<lparr>ent_type = 8, ent_num = 99\<rparr>))) = 5 \<and>
   started (snd (start (Messenger_new 127 () 0 \<lparr>ent_type = 8, ent_num = 99\<rparr>))) \<and>
   fst (set_default_send_priority 5
     (snd (start (Messenger_new 127 () 0 \<lparr>ent_type = 8, ent_num = 99\<rparr>))))
     = AssertFailure ''!started''"
  using set_default_send_priority_init_time
    [of "Messenger_new 127 () 0 \<lparr>ent_type = 8, ent_num = 99\<rparr>" 5]
    set_default_send_priority_init_time
    [of "snd (start (Messenger_new 127 () 0 \<lparr>ent_type = 8, ent_num = 99\<rparr>))" 5]
  by (simp add: start_def Messenger_new_def set_default_send_priority_def
      get_default_send_priority_def)

section \<open>Lazy send by peer instance\<close>

text \<open>
  Claim C10. The base class's \<open>lazy_send_message(m, inst)\<close> is \<open>send_message(m, inst)\<close>:
  same returned value, same message, same state afterwards, for every transport's
  \<open>send_message\<close>.
\<close>

theorem lazy_send_message_is_send_message:
  "lazy_send_message T mp m dest s = send_message T mp m dest s"
  by (simp add: lazy_send_message_def)

text \<open>A lazy send to the address 0 fails as the immediate send does.\<close>

theorem lazy_send_message_is_send_message_witness:
  "lazy_send_message base_transport 16 ping \<lparr>name = \<lparr>ent_type = 4, ent_num = 0\<rparr>, addr = 0\<rparr>
       client99
     = (- 22, ping, client99\<lparr>world := 1\<rparr>) \<and>
   send_message base_transport 16 ping \<lparr>name = \<lparr>ent_type = 4, ent_num = 0\<rparr>, addr = 0\<rparr>
       client99
     = (- 22, ping, client99\<lparr>world := 1\<rparr>)"
  using lazy_send_message_is_send_message
    [of base_transport 16 ping "\<lparr>name = \<lparr>ent_type = 4, ent_num = 0\<rparr>, addr = 0\<rparr>" client99]
  by (simp add: base_transport_def client99_def Messenger_new_def)

section \<open>Unhandled messages\<close>



section \<open>Message dispatch stops at the first claim\<close>



section \<open>Broadcast events\<close>

text \<open>
  Claim C3. \<open>ms_deliver_handle_connect\<close> and \<open>ms_deliver_handle_remote_reset\<close> call every
  dispatcher of the chain exactly once, in chain order, whatever the callbacks return
  (the dispatchers \<open>D\<close> are arbitrary): the log gains one call per chain entry, in order,
  and the world afterwards is the one obtained by running the callback of each chain
  entry in turn. The chain is left as it was.
\<close>

theorem broadcast_reaches_every_dispatcher:
  "calls (ms_deliver_handle_connect D con s)
     = calls s @ map (\<lambda>p. MsHandleConnect p con) (dispatchers s) \<and>
   world (ms_deliver_handle_connect D con s)
     = fold (\<lambda>p w. snd (ms_handle_connect (D p) con w)) (dispatchers s) (world s) \<and>
   calls (ms_deliver_handle_remote_reset D con s)
     = calls s @ map (\<lambda>p. MsHandleRemoteReset p con) (dispatchers s) \<and>
   world (ms_deliver_handle_remote_reset D con s)
     = fold (\<lambda>p w. snd (ms_handle_remote_reset (D p) con w)) (dispatchers s) (world s) \<and>
   dispatchers (ms_deliver_handle_connect D con s) = dispatchers s \<and>
   dispatchers (ms_deliver_handle_remote_reset D con s) = dispatchers s"
  by (simp add: ms_deliver_handle_connect_def ms_deliver_handle_remote_reset_def
      ms_handle_connect_loop_calls ms_handle_remote_reset_loop_calls
      ms_handle_connect_loop_world ms_handle_remote_reset_loop_world
      ms_handle_connect_loop_frame ms_handle_remote_reset_loop_frame)

text \<open>
  Three dispatchers whose connect callbacks return different values (true for dispatcher
  1, false for the others): all three are called, in order, and each has counted its
  call in the world.
\<close>

theorem broadcast_reaches_every_dispatcher_witness:
  "fst (ms_handle_connect (claimer 1 1) 7 0) \<and> \<not> fst (ms_handle_connect (claimer 1 2) 7 0) \<and>
   ms_deliver_handle_connect (claimer 1) 7 (client99\<lparr>dispatchers := [1, 2, 3]\<rparr>)
     = client99\<lparr>dispatchers := [1, 2, 3], world := 3,
         calls := [MsHandleConnect 1 7, MsHandleConnect 2 7, MsHandleConnect 3 7]\<rparr> \<and>
   ms_deliver_handle_remote_reset (claimer 1) 7 (client99\<lparr>dispatchers := [1, 2, 3]\<rparr>)
     = client99\<lparr>dispatchers := [1, 2, 3], world := 3,
         calls := [MsHandleRemoteReset 1 7, MsHandleRemoteReset 2 7, MsHandleRemoteReset 3 7]\<rparr> \<and>
   fold (\<lambda>p w. snd (ms_handle_connect (claimer 1 p) 7 w)) [1, 2, 3] 0 = 3 \<and>
   fold (\<lambda>p w. snd (ms_handle_remote_reset (claimer 1 p) 7 w)) [1, 2, 3] 0 = 3"
  using broadcast_reaches_every_dispatcher
    [of "claimer 1" 7 "client99\<lparr>dispatchers := [1, 2, 3]\<rparr>"]
  by (simp add: claimer_def client99_def Messenger_new_def ms_deliver_handle_connect_def
      ms_deliver_handle_remote_reset_def)


section \<open>An unclaimed local reset\<close>



section \<open>The ready signal\<close>

text \<open>
  Claim C4. On a newly constructed messenger, any sequence of one or more
  \<open>add_dispatcher_head\<close> and \<open>add_dispatcher_tail\<close> calls runs \<open>ready()\<close> exactly once: the
  log is the single call \<open>Ready\<close> and the world is the transport's \<open>ready()\<close> applied once
  to the initial world. The first call of the sequence is the one that runs it. In any
  state, an insertion runs \<open>ready()\<close> when, and only when, the chain was empty before it,
  and the chain is never empty after it. \<open>is_ready()\<close> is true if and only if the chain
  is non-empty, that is, on a new messenger, if and only if some insertion was made.
\<close>

theorem ready_fires_once:
  "calls (add_dispatchers T (i # ins) (Messenger_new prio0 w0 c n)) = [Ready] \<and>
   world (add_dispatchers T (i # ins) (Messenger_new prio0 w0 c n)) = ready T w0 \<and>
   count_list (calls (add_dispatchers T (i # ins) (Messenger_new prio0 w0 c n))) Ready = 1 \<and>
   calls (add_dispatcher T i (Messenger_new prio0 w0 c n)) = [Ready] \<and>
   world (add_dispatcher T i (Messenger_new prio0 w0 c n)) = ready T w0 \<and>
   calls (add_dispatcher T j s) = calls s @ (if dispatchers s = [] then [Ready] else []) \<and>
   world (add_dispatcher T j s) = (if dispatchers s = [] then ready T (world s) else world s) \<and>
   dispatchers (add_dispatcher T j s) \<noteq> [] \<and>
   is_ready s = (dispatchers s \<noteq> []) \<and>
   is_ready (add_dispatchers T js (Messenger_new prio0 w0 c n)) = (js \<noteq> [])"
proof -
  let ?s0 = "Messenger_new prio0 w0 c n"
  have first: "calls (add_dispatcher T i ?s0) = [Ready]"
    by (simp add: add_dispatcher_calls) (simp add: Messenger_new_def)
  have first_world: "world (add_dispatcher T i ?s0) = ready T w0"
    by (simp add: add_dispatcher_world) (simp add: Messenger_new_def)
  have unfold: "add_dispatchers T (i # ins) ?s0 = add_dispatchers T ins (add_dispatcher T i ?s0)"
    by (simp add: add_dispatchers_def)
  with first have all: "calls (add_dispatchers T (i # ins) ?s0) = [Ready]"
    by (simp add: add_dispatchers_later_calls add_dispatcher_nonempty)
  from unfold first_world have all_world: "world (add_dispatchers T (i # ins) ?s0) = ready T w0"
    by (simp add: add_dispatchers_later_world add_dispatcher_nonempty)
  have "dispatchers ?s0 = []"
    by (simp add: Messenger_new_def)
  then have ready: "is_ready (add_dispatchers T js ?s0) = (js \<noteq> [])"
    by (simp add: is_ready_def add_dispatchers_empty_iff)
  from first first_world all all_world ready show ?thesis
    by (simp add: add_dispatcher_calls add_dispatcher_world add_dispatcher_nonempty
        is_ready_def)
qed

text \<open>
  Three insertions into the new messenger \<open>client99\<close>, under a transport whose \<open>ready()\<close>
  leaves a mark in the world.
\<close>

theorem ready_fires_once_witness:
  "add_dispatchers marking_transport [AtHead 1, AtTail 2, AtHead 3] client99
     = client99\<lparr>dispatchers := [3, 1, 2], world := 100, calls := [Ready]\<rparr> \<and>
   ready marking_transport 0 = 100 \<and>
   count_list (calls (add_dispatchers marking_transport [AtHead 1, AtTail 2, AtHead 3] client99))
     Ready = 1 \<and>
   is_ready (add_dispatchers marking_transport [AtHead 1, AtTail 2, AtHead 3] client99) \<and>
   \<not> is_ready client99"
  using ready_fires_once [of marking_transport "AtHead 1" "[AtTail 2, AtHead 3]" 127 0 0
      "\<lparr>ent_type = 8, ent_num = 99\<rparr>" "AtHead 1" client99 "[]"]
  by (simp add: client99_def Messenger_new_def add_dispatchers_def add_dispatcher_head_def
      add_dispatcher_tail_def call_ready_def marking_transport_def base_transport_def
      is_ready_def)

section \<open>Head insertion\<close>

text \<open>
  Claim C5. \<open>add_dispatcher_head\<close> puts the dispatcher in front of the chain, whatever
  the chain is, and a connect event then reaches it first and the former chain after it.
  After \<open>add_dispatcher_head\<close> of \<open>Dd\<close>, \<open>E\<close> and \<open>F\<close>, in this order, into an empty chain,
  the chain is \<open>[F, E, Dd]\<close>. In any later state \<open>u\<close> with this chain, every kind of
  delivery asks \<open>F\<close>, \<open>E\<close>, \<open>Dd\<close> in this order (message dispatch, local reset and
  authorizer issuance up to the first claim, connect and remote reset to the end) and
  leaves the chain as it is, so the same holds for the delivery after it.
\<close>

theorem add_dispatcher_head_reverses:
  assumes empty: "dispatchers s = []"
    and s3: "s3 = add_dispatcher_head T F (add_dispatcher_head T E (add_dispatcher_head T Dd s))"
    and later: "dispatchers u = dispatchers s3"
    and run: "ms_deliver_dispatch D P now mp m u = (out, m', u')"
  shows "dispatchers (add_dispatcher_head T d t) = d # dispatchers t \<and>
         calls (ms_deliver_handle_connect D con (add_dispatcher_head T d t))
           = calls (add_dispatcher_head T d t)
               @ MsHandleConnect d con # map (\<lambda>p. MsHandleConnect p con) (dispatchers t) \<and>
         dispatchers s3 = [F, E, Dd] \<and>
         dispatchers u' = [F, E, Dd] \<and>
         (\<exists>k. k \<le> 3 \<and> (out = Returned () \<longrightarrow> k < 3) \<and> (out \<noteq> Returned () \<longrightarrow> k = 3) \<and>
            calls u' = calls u @ SetDispatchStamp mp now
              # map (\<lambda>p. MsDispatch p mp False) (take k [F, E, Dd])
              @ (if out = Returned () then [MsDispatch ([F, E, Dd] ! k) mp True]
                 else [DoutEmergency (unhandled_text P mp m')])) \<and>
         calls (ms_deliver_handle_connect D con u)
           = calls u @ [MsHandleConnect F con, MsHandleConnect E con, MsHandleConnect Dd con] \<and>
         dispatchers (ms_deliver_handle_connect D con u) = [F, E, Dd] \<and>
         calls (ms_deliver_handle_remote_reset D con u)
           = calls u @ [MsHandleRemoteReset F con, MsHandleRemoteReset E con,
               MsHandleRemoteReset Dd con] \<and>
         dispatchers (ms_deliver_handle_remote_reset D con u) = [F, E, Dd] \<and>
         (\<exists>k. k \<le> 3 \<and>
            calls (snd (ms_deliver_handle_reset D con u))
              = calls u @ map (\<lambda>p. MsHandleReset p con False) (take k [F, E, Dd])
                  @ (if k < 3 then [MsHandleReset ([F, E, Dd] ! k) con True] else [])) \<and>
         dispatchers (snd (ms_deliver_handle_reset D con u)) = [F, E, Dd] \<and>
         (\<exists>k. k \<le> 3 \<and>
            calls (snd (ms_deliver_get_authorizer D pt fn u))
              = calls u @ map (\<lambda>p. MsGetAuthorizer p pt fn False) (take k [F, E, Dd])
                  @ (if k < 3 then [MsGetAuthorizer ([F, E, Dd] ! k) pt fn True] else [])) \<and>
         dispatchers (snd (ms_deliver_get_authorizer D pt fn u)) = [F, E, Dd]"
proof -
  have front: "dispatchers (add_dispatcher_head T d t) = d # dispatchers t"
    by (simp add: add_dispatcher_head_def call_ready_def Let_def)
  have "calls (ms_deliver_handle_connect D con (add_dispatcher_head T d t))
      = calls (add_dispatcher_head T d t)
          @ map (\<lambda>p. MsHandleConnect p con) (dispatchers (add_dispatcher_head T d t))"
    by (simp add: ms_deliver_handle_connect_def ms_handle_connect_loop_calls)
  then have front_first: "calls (ms_deliver_handle_connect D con (add_dispatcher_head T d t))
      = calls (add_dispatcher_head T d t)
          @ MsHandleConnect d con # map (\<lambda>p. MsHandleConnect p con) (dispatchers t)"
    by (simp only: front list.map)
  from empty s3 have d3: "dispatchers s3 = [F, E, Dd]"
    by (simp add: add_dispatcher_head_def call_ready_def Let_def)
  with later have du: "dispatchers u = [F, E, Dd]"
    by simp
  then have len: "length (dispatchers u) = 3"
    by simp
  from ms_deliver_dispatch_frame [OF run] du have d': "dispatchers u' = [F, E, Dd]"
    by simp
  from ms_deliver_dispatch_calls [OF run] obtain k where
    k: "k \<le> length (dispatchers u)"
      "out = Returned () \<longrightarrow> k < length (dispatchers u)"
      "out \<noteq> Returned () \<longrightarrow> k = length (dispatchers u) \<and> out = AssertFailure ''0''"
      "calls u' = calls u @ SetDispatchStamp mp now
         # map (\<lambda>p. MsDispatch p mp False) (take k (dispatchers u))
         @ (if out = Returned () then [MsDispatch (dispatchers u ! k) mp True]
            else [DoutEmergency (unhandled_text P mp m')])"
    by blast
  from k(1,2,3) have b: "k \<le> 3" "out = Returned () \<longrightarrow> k < 3" "out \<noteq> Returned () \<longrightarrow> k = 3"
    unfolding len by blast+
  from k(4) have "calls u' = calls u @ SetDispatchStamp mp now
         # map (\<lambda>p. MsDispatch p mp False) (take k [F, E, Dd])
         @ (if out = Returned () then [MsDispatch ([F, E, Dd] ! k) mp True]
            else [DoutEmergency (unhandled_text P mp m')])"
    by (simp only: du)
  with b
  have order: "\<exists>k. k \<le> 3 \<and> (out = Returned () \<longrightarrow> k < 3) \<and> (out \<noteq> Returned () \<longrightarrow> k = 3) \<and>
            calls u' = calls u @ SetDispatchStamp mp now
              # map (\<lambda>p. MsDispatch p mp False) (take k [F, E, Dd])
              @ (if out = Returned () then [MsDispatch ([F, E, Dd] ! k) mp True]
                 else [DoutEmergency (unhandled_text P mp m')])"
    by blast
  have "calls (ms_deliver_handle_connect D con u)
           = calls u @ map (\<lambda>p. MsHandleConnect p con) (dispatchers u)"
    by (simp add: ms_deliver_handle_connect_def ms_handle_connect_loop_calls)
  with du have connect: "calls (ms_deliver_handle_connect D con u)
           = calls u @ [MsHandleConnect F con, MsHandleConnect E con, MsHandleConnect Dd con]"
    by simp
  have "dispatchers (ms_deliver_handle_connect D con u) = dispatchers u"
    by (simp add: ms_deliver_handle_connect_def ms_handle_connect_loop_frame)
  with du have connect_frame: "dispatchers (ms_deliver_handle_connect D con u) = [F, E, Dd]"
    by simp
  have "calls (ms_deliver_handle_remote_reset D con u)
           = calls u @ map (\<lambda>p. MsHandleRemoteReset p con) (dispatchers u)"
    by (simp add: ms_deliver_handle_remote_reset_def ms_handle_remote_reset_loop_calls)
  with du have remote: "calls (ms_deliver_handle_remote_reset D con u)
           = calls u @ [MsHandleRemoteReset F con, MsHandleRemoteReset E con,
               MsHandleRemoteReset Dd con]"
    by simp
  have "dispatchers (ms_deliver_handle_remote_reset D con u) = dispatchers u"
    by (simp add: ms_deliver_handle_remote_reset_def ms_handle_remote_reset_loop_frame)
  with du have remote_frame: "dispatchers (ms_deliver_handle_remote_reset D con u) = [F, E, Dd]"
    by simp
  from ms_handle_reset_loop_calls [of "dispatchers u" D con u] obtain kr where
    kr: "kr \<le> length (dispatchers u)"
      "calls (ms_handle_reset_loop D (dispatchers u) con u)
         = calls u @ map (\<lambda>p. MsHandleReset p con False) (take kr (dispatchers u))
             @ (if kr < length (dispatchers u)
                then [MsHandleReset (dispatchers u ! kr) con True] else [])"
    by blast
  from kr(1) have kr3: "kr \<le> 3"
    unfolding len .
  from kr(2) have "calls (snd (ms_deliver_handle_reset D con u))
         = calls u @ map (\<lambda>p. MsHandleReset p con False) (take kr (dispatchers u))
             @ (if kr < length (dispatchers u)
                then [MsHandleReset (dispatchers u ! kr) con True] else [])"
    by (simp add: ms_deliver_handle_reset_def)
  then have "calls (snd (ms_deliver_handle_reset D con u))
         = calls u @ map (\<lambda>p. MsHandleReset p con False) (take kr [F, E, Dd])
             @ (if kr < 3 then [MsHandleReset ([F, E, Dd] ! kr) con True] else [])"
    unfolding len by (simp only: du)
  with kr3 have reset: "\<exists>k. k \<le> 3 \<and>
            calls (snd (ms_deliver_handle_reset D con u))
              = calls u @ map (\<lambda>p. MsHandleReset p con False) (take k [F, E, Dd])
                  @ (if k < 3 then [MsHandleReset ([F, E, Dd] ! k) con True] else [])"
    by blast
  have "dispatchers (snd (ms_deliver_handle_reset D con u)) = dispatchers u"
    by (simp add: ms_deliver_handle_reset_def ms_handle_reset_loop_frame)
  with du have reset_frame: "dispatchers (snd (ms_deliver_handle_reset D con u)) = [F, E, Dd]"
    by simp
  obtain ra ua where ga: "ms_get_authorizer_loop D (dispatchers u) pt fn None u = (ra, ua)"
    by (cases "ms_get_authorizer_loop D (dispatchers u) pt fn None u")
  from ms_get_authorizer_loop_result [OF ga] obtain ka where
    ka: "ka \<le> length (dispatchers u)"
      "calls ua = calls u @ map (\<lambda>p. MsGetAuthorizer p pt fn False) (take ka (dispatchers u))
             @ (if ka < length (dispatchers u)
                then [MsGetAuthorizer (dispatchers u ! ka) pt fn True] else [])"
    by blast
  from ka(1) have ka3: "ka \<le> 3"
    unfolding len .
  from ka(2) ga have "calls (snd (ms_deliver_get_authorizer D pt fn u))
         = calls u @ map (\<lambda>p. MsGetAuthorizer p pt fn False) (take ka (dispatchers u))
             @ (if ka < length (dispatchers u)
                then [MsGetAuthorizer (dispatchers u ! ka) pt fn True] else [])"
    by (simp add: ms_deliver_get_authorizer_def)
  then have "calls (snd (ms_deliver_get_authorizer D pt fn u))
         = calls u @ map (\<lambda>p. MsGetAuthorizer p pt fn False) (take ka [F, E, Dd])
             @ (if ka < 3 then [MsGetAuthorizer ([F, E, Dd] ! ka) pt fn True] else [])"
    unfolding len by (simp only: du)
  with ka3 have auth: "\<exists>k. k \<le> 3 \<and>
            calls (snd (ms_deliver_get_authorizer D pt fn u))
              = calls u @ map (\<lambda>p. MsGetAuthorizer p pt fn False) (take k [F, E, Dd])
                  @ (if k < 3 then [MsGetAuthorizer ([F, E, Dd] ! k) pt fn True] else [])"
    by blast
  have "dispatchers (snd (ms_deliver_get_authorizer D pt fn u)) = dispatchers u"
    by (simp add: ms_deliver_get_authorizer_def ms_get_authorizer_loop_frame)
  with du have auth_frame: "dispatchers (snd (ms_deliver_get_authorizer D pt fn u)) = [F, E, Dd]"
    by simp
  from front front_first d3 d' order connect connect_frame remote remote_frame reset
    reset_frame auth auth_frame
  show ?thesis by blast
qed

text \<open>
  Dispatchers 1, 2, 3 inserted at the head; a connect event, and after it a message that
  nobody claims.
\<close>

theorem add_dispatcher_head_reverses_witness:
  "dispatchers client99 = [] \<and>
   add_dispatcher_head marking_transport 3
     (add_dispatcher_head marking_transport 2 (add_dispatcher_head marking_transport 1 client99))
     = client99\<lparr>dispatchers := [3, 2, 1], world := 100, calls := [Ready]\<rparr> \<and>
   ms_deliver_handle_connect (claimer 0) 7
       (client99\<lparr>dispatchers := [3, 2, 1], world := 100, calls := [Ready]\<rparr>)
     = client99\<lparr>dispatchers := [3, 2, 1], world := 103,
         calls := [Ready, MsHandleConnect 3 7, MsHandleConnect 2 7, MsHandleConnect 1 7]\<rparr> \<and>
   ms_deliver_dispatch (claimer 0) plain 5 16 ping
       (client99\<lparr>dispatchers := [3, 2, 1], world := 103,
         calls := [Ready, MsHandleConnect 3 7, MsHandleConnect 2 7, MsHandleConnect 1 7]\<rparr>)
     = (AssertFailure ''0'', ping\<lparr>dispatch_stamp := 5\<rparr>,
        client99\<lparr>dispatchers := [3, 2, 1], world := 106,
          calls := [Ready, MsHandleConnect 3 7, MsHandleConnect 2 7, MsHandleConnect 1 7,
            SetDispatchStamp 16 5, MsDispatch 3 16 False, MsDispatch 2 16 False,
            MsDispatch 1 16 False,
            DoutEmergency
              ''ms_deliver_dispatch: fatal error: unhandled message 0x10 ping from osd.0'']\<rparr>)"
proof -
  let ?s3 = "client99\<lparr>dispatchers := [3, 2, 1], world := 100, calls := [Ready]\<rparr>"
  let ?u = "client99\<lparr>dispatchers := [3, 2, 1], world := 103,
         calls := [Ready, MsHandleConnect 3 7, MsHandleConnect 2 7, MsHandleConnect 1 7]\<rparr>"
  have empty: "dispatchers client99 = []"
    by (simp add: client99_def Messenger_new_def)
  have s3: "?s3 = add_dispatcher_head marking_transport 3
          (add_dispatcher_head marking_transport 2
            (add_dispatcher_head marking_transport 1 client99))"
    by (simp add: add_dispatcher_head_def call_ready_def marking_transport_def
        base_transport_def client99_def Messenger_new_def)
  have u: "ms_deliver_handle_connect (claimer 0) 7 ?s3 = ?u"
    by (simp add: ms_deliver_handle_connect_def claimer_def client99_def Messenger_new_def)
  have later: "dispatchers ?u = dispatchers ?s3"
    by simp
  have run: "ms_deliver_dispatch (claimer 0) plain 5 16 ping ?u
     = (AssertFailure ''0'', ping\<lparr>dispatch_stamp := 5\<rparr>,
        client99\<lparr>dispatchers := [3, 2, 1], world := 106,
          calls := [Ready, MsHandleConnect 3 7, MsHandleConnect 2 7, MsHandleConnect 1 7,
            SetDispatchStamp 16 5, MsDispatch 3 16 False, MsDispatch 2 16 False,
            MsDispatch 1 16 False,
            DoutEmergency
              ''ms_deliver_dispatch: fatal error: unhandled message 0x10 ping from osd.0'']\<rparr>)"
    by (simp add: ms_deliver_dispatch_def unhandled_text_def claimer_def plain_def ping_def
        client99_def Messenger_new_def)
  from add_dispatcher_head_reverses [OF empty s3 later run] empty s3 u run show ?thesis
    by simp
qed

section \<open>Authorizer issuance\<close>

text \<open>
  Claim C8, as the code has it. \<open>ms_deliver_get_authorizer\<close> calls \<open>ms_get_authorizer\<close> on
  the dispatchers in chain order and stops at the first call that returns true, at some
  position \<open>k\<close>: every call before \<open>k\<close> declined, each call received the variable \<open>a\<close>
  as the calls before it left it (null at the start), and the result is what the call
  at \<open>k\<close> left in \<open>a\<close>. When no call returns true the result is null, whatever was
  stored in \<open>a\<close>. The chain is left as it was. When every dispatcher of the chain, given
  a null \<open>a\<close>, returns true exactly when it leaves a non-null authorizer in \<open>a\<close>, the
  result is the authorizer of the first dispatcher that produces a non-null one.
\<close>

theorem ms_deliver_get_authorizer_stops_at_first_true:
  assumes run: "ms_deliver_get_authorizer D pt fn s = (a, s')"
  shows "(\<exists>k. k \<le> length (dispatchers s) \<and>
            (\<forall>i<k. \<not> fst (ms_get_authorizer (D (dispatchers s ! i)) pt
                 (fst (asked_in_turn D pt fn (take i (dispatchers s)) (None, world s))) fn
                 (snd (asked_in_turn D pt fn (take i (dispatchers s)) (None, world s))))) \<and>
            (k < length (dispatchers s) \<longrightarrow>
               ms_get_authorizer (D (dispatchers s ! k)) pt
                 (fst (asked_in_turn D pt fn (take k (dispatchers s)) (None, world s))) fn
                 (snd (asked_in_turn D pt fn (take k (dispatchers s)) (None, world s)))
               = (True, a, world s')) \<and>
            (k = length (dispatchers s) \<longrightarrow>
               a = None \<and>
               world s' = snd (asked_in_turn D pt fn (dispatchers s) (None, world s))) \<and>
            calls s' = calls s
              @ map (\<lambda>p. MsGetAuthorizer p pt fn False) (take k (dispatchers s))
              @ (if k < length (dispatchers s)
                 then [MsGetAuthorizer (dispatchers s ! k) pt fn True] else [])) \<and>
         dispatchers s' = dispatchers s \<and>
         (\<forall>p ps a1 w1. dispatchers s = p # ps \<and>
              ms_get_authorizer (D p) pt None fn (world s) = (True, a1, w1) \<longrightarrow>
              a = a1 \<and> world s' = w1) \<and>
         ((\<forall>p\<in>set (dispatchers s). \<forall>w.
              fst (ms_get_authorizer (D p) pt None fn w)
                = (fst (snd (ms_get_authorizer (D p) pt None fn w)) \<noteq> None)) \<longrightarrow>
            a = spec_first_nonnull_authorizer D (dispatchers s) pt fn (world s))"
proof (intro conjI allI impI)
  from run have loop: "ms_get_authorizer_loop D (dispatchers s) pt fn None s = (a, s')"
    by (simp add: ms_deliver_get_authorizer_def)
  from ms_get_authorizer_loop_result [OF loop]
  show "\<exists>k. k \<le> length (dispatchers s) \<and>
            (\<forall>i<k. \<not> fst (ms_get_authorizer (D (dispatchers s ! i)) pt
                 (fst (asked_in_turn D pt fn (take i (dispatchers s)) (None, world s))) fn
                 (snd (asked_in_turn D pt fn (take i (dispatchers s)) (None, world s))))) \<and>
            (k < length (dispatchers s) \<longrightarrow>
               ms_get_authorizer (D (dispatchers s ! k)) pt
                 (fst (asked_in_turn D pt fn (take k (dispatchers s)) (None, world s))) fn
                 (snd (asked_in_turn D pt fn (take k (dispatchers s)) (None, world s)))
               = (True, a, world s')) \<and>
            (k = length (dispatchers s) \<longrightarrow>
               a = None \<and>
               world s' = snd (asked_in_turn D pt fn (dispatchers s) (None, world s))) \<and>
            calls s' = calls s
              @ map (\<lambda>p. MsGetAuthorizer p pt fn False) (take k (dispatchers s))
              @ (if k < length (dispatchers s)
                 then [MsGetAuthorizer (dispatchers s ! k) pt fn True] else [])"
    by blast
  from ms_get_authorizer_loop_frame [of D "dispatchers s" pt fn None s] loop
  show "dispatchers s' = dispatchers s"
    by simp
next
  fix p ps a1 w1
  assume "dispatchers s = p # ps \<and>
    ms_get_authorizer (D p) pt None fn (world s) = (True, a1, w1)"
  with run show "a = a1" and "world s' = w1"
    by (auto simp add: ms_deliver_get_authorizer_def)
next
  assume "\<forall>p\<in>set (dispatchers s). \<forall>w.
      fst (ms_get_authorizer (D p) pt None fn w)
        = (fst (snd (ms_get_authorizer (D p) pt None fn w)) \<noteq> None)"
  from ms_get_authorizer_loop_spec [OF this, of s] run
  show "a = spec_first_nonnull_authorizer D (dispatchers s) pt fn (world s)"
    by (simp add: ms_deliver_get_authorizer_def)
qed

text \<open>
  The chain \<open>[1, 2, 3]\<close> twice. Under \<open>hand_over 2\<close>, dispatcher 1 stores its authorizer
  and declines, dispatcher 2 answers true and stores nothing: the result is the
  authorizer of dispatcher 1. Under \<open>claimer 2\<close> only dispatcher 2 issues an authorizer.
\<close>

theorem ms_deliver_get_authorizer_stops_at_first_true_witness:
  "ms_deliver_get_authorizer (hand_over 2) 4 False (client99\<lparr>dispatchers := [1, 2, 3]\<rparr>)
     = (Some 1, client99\<lparr>dispatchers := [1, 2, 3], world := 2,
          calls := [MsGetAuthorizer 1 4 False False, MsGetAuthorizer 2 4 False True]\<rparr>) \<and>
   asked_in_turn (hand_over 2) 4 False [1] (None, 0) = (Some 1, 1) \<and>
   ms_get_authorizer (hand_over 2 2) 4 (Some 1) False 1 = (True, Some 1, 2) \<and>
   ms_deliver_get_authorizer (claimer 2) 4 False (client99\<lparr>dispatchers := [1, 2, 3]\<rparr>)
     = (Some 2, client99\<lparr>dispatchers := [1, 2, 3], world := 2,
          calls := [MsGetAuthorizer 1 4 False False, MsGetAuthorizer 2 4 False True]\<rparr>) \<and>
   (\<forall>w. \<not> fst (ms_get_authorizer (claimer 2 1) 4 None False w) \<and>
      fst (snd (ms_get_authorizer (claimer 2 1) 4 None False w)) = None) \<and>
   (\<forall>w. fst (ms_get_authorizer (claimer 2 2) 4 None False w) \<and>
      fst (snd (ms_get_authorizer (claimer 2 2) 4 None False w)) = Some 2) \<and>
   (\<forall>w. \<not> fst (ms_get_authorizer (claimer 2 3) 4 None False w) \<and>
      fst (snd (ms_get_authorizer (claimer 2 3) 4 None False w)) = None) \<and>
   spec_first_nonnull_authorizer (claimer 2) [1, 2, 3] 4 False 0 = Some 2"
proof -
  have run1: "ms_deliver_get_authorizer (hand_over 2) 4 False (client99\<lparr>dispatchers := [1, 2, 3]\<rparr>)
     = (Some 1, client99\<lparr>dispatchers := [1, 2, 3], world := 2,
          calls := [MsGetAuthorizer 1 4 False False, MsGetAuthorizer 2 4 False True]\<rparr>)"
    by (simp add: ms_deliver_get_authorizer_def hand_over_def claimer_def client99_def
        Messenger_new_def)
  have run2: "ms_deliver_get_authorizer (claimer 2) 4 False (client99\<lparr>dispatchers := [1, 2, 3]\<rparr>)
     = (Some 2, client99\<lparr>dispatchers := [1, 2, 3], world := 2,
          calls := [MsGetAuthorizer 1 4 False False, MsGetAuthorizer 2 4 False True]\<rparr>)"
    by (simp add: ms_deliver_get_authorizer_def claimer_def client99_def Messenger_new_def)
  have conv: "\<forall>p\<in>set (dispatchers (client99\<lparr>dispatchers := [1, 2, 3]\<rparr>)). \<forall>w.
      fst (ms_get_authorizer (claimer 2 p) 4 None False w)
        = (fst (snd (ms_get_authorizer (claimer 2 p) 4 None False w)) \<noteq> None)"
    by (simp add: claimer_def)
  have slot: "asked_in_turn (hand_over 2) 4 False [1] (None, 0) = (Some 1, 1)"
    "ms_get_authorizer (hand_over 2 2) 4 (Some 1) False 1 = (True, Some 1, 2)"
    by (simp_all add: hand_over_def claimer_def)
  from ms_deliver_get_authorizer_stops_at_first_true [OF run1]
    ms_deliver_get_authorizer_stops_at_first_true [OF run2] conv run1 run2 slot
  show ?thesis
    by (simp add: client99_def Messenger_new_def claimer_def)
qed

text \<open>
  The claim as worded fails where a dispatcher answers true and stores no authorizer:
  in the chain \<open>[1, 2]\<close>, dispatcher 1 returns true and leaves \<open>a\<close> null, dispatcher 2
  would store the authorizer 2. The first dispatcher producing a non-null authorizer is
  dispatcher 2, but the operation returns null after the call on dispatcher 1 and never
  calls dispatcher 2.
\<close>

theorem ms_deliver_get_authorizer_counterexample:
  "fst (ms_deliver_get_authorizer (no_auth_needed 1) 4 False (client99\<lparr>dispatchers := [1, 2]\<rparr>))
     \<noteq> spec_first_nonnull_authorizer (no_auth_needed 1)
          (dispatchers (client99\<lparr>dispatchers := [1, 2]\<rparr>)) 4 False
          (world (client99\<lparr>dispatchers := [1, 2]\<rparr>)) \<and>
   ms_deliver_get_authorizer (no_auth_needed 1) 4 False (client99\<lparr>dispatchers := [1, 2]\<rparr>)
     = (None, client99\<lparr>dispatchers := [1, 2], world := 1,
          calls := [MsGetAuthorizer 1 4 False True]\<rparr>) \<and>
   spec_first_nonnull_authorizer (no_auth_needed 1) [1, 2] 4 False 0 = Some 2"
  by (simp add: ms_deliver_get_authorizer_def no_auth_needed_def claimer_def client99_def
      Messenger_new_def)

end
